theory Spec2Isabelle
  imports Complex_Main "HOL-Library.Word" "HOL-Library.Log_Nat"
begin

section \<open>The DDS throughput benchmark: publisher and subscriber\<close>

text \<open>
  The two scripts \<^verbatim>\<open>scripts/dds_pub.py\<close> and \<^verbatim>\<open>scripts/dds_sub.py\<close> are embedded
  function by function. Python's unbounded integers are \<^typ>\<open>int\<close>. Python's floats
  (rates, clock readings) are modelled by \<^typ>\<open>real\<close>, so that a formula of the code
  stands for the same formula evaluated in double arithmetic; rounding and overflow are
  not modelled, except for the pacer's schedule, whose double arithmetic has a
  subsection of its own. Two floats keep their special values: the throughput figures, which
  the subscriber sets to \<^verbatim>\<open>float('inf')\<close> on purpose, and the subscriber's timeout, which
  comes from the command line and may be \<^verbatim>\<open>inf\<close> or \<^verbatim>\<open>nan\<close>.
\<close>

subsection \<open>Payload generator (dds_pub.py, make_data_bytes)\<close>

type_synonym byte = "8 word"

text \<open>\<^verbatim>\<open>range(size)\<close>: the integers from 0 up to \<open>size - 1\<close>, empty when \<open>size \<le> 0\<close>.\<close>

definition range_py :: "int \<Rightarrow> int list" where
  "range_py n = [0..n - 1]"

text \<open>\<^verbatim>\<open>bytes(i % 256 for i in range(size))\<close>. Every \<open>i mod 256\<close> lies in 0..255, so
  the conversion to a byte never raises.\<close>

definition make_data_bytes :: "int \<Rightarrow> byte list" where
  "make_data_bytes sz = map (\<lambda>i. word_of_int (i mod 256)) (range_py sz)"

subsection \<open>Publisher: rate pacer and publish loop (dds_pub.py, main)\<close>

datatype qos_preset = Reliable | HighThroughput | BestEffort













datatype py_error = ZeroDivisionError



subsection \<open>The pacer's schedule in double arithmetic\<close>







subsection \<open>Subscriber: receive loop and final report (dds_sub.py, main)\<close>

text \<open>
  What \<^verbatim>\<open>reader.take\<close> hands out: a data sample (an instance of
  \<^verbatim>\<open>BenchmarkData\<close>, carrying its payload) or an invalid sample, the notice of a
  disposed or unregistered instance.
\<close>

datatype sample = is_BenchmarkData: BenchmarkData (data: "byte list") | InvalidSample

text \<open>
  A value of Python's \<^verbatim>\<open>float\<close> as \<^verbatim>\<open>argparse\<close> produces it with \<^verbatim>\<open>type=float\<close>
  (line 34): a finite number, \<^verbatim>\<open>inf\<close>, \<^verbatim>\<open>-inf\<close> or \<^verbatim>\<open>nan\<close>.
\<close>

datatype pyfloat = Finite real | PlusInf | MinusInf | NaN

text \<open>The comparison \<^verbatim>\<open>x > t\<close> of a finite \<open>x\<close> with a float \<open>t\<close>: nothing finite is
  above \<^verbatim>\<open>inf\<close>, and every comparison with \<^verbatim>\<open>nan\<close> is false.\<close>

fun float_gt :: "real \<Rightarrow> pyfloat \<Rightarrow> bool" where
  "float_gt x (Finite t) = (t < x)"
| "float_gt x PlusInf = False"
| "float_gt x MinusInf = True"
| "float_gt x NaN = False"

record sub_args =
  sub_count :: int
  sub_timeout :: pyfloat

text \<open>The four variables initialised on lines 72 to 75.\<close>

record window =
  received_count :: int
  total_bytes :: int
  first_msg_time :: "real option"
  last_msg_time :: "real option"

definition empty_window :: window where
  "empty_window = \<lparr>received_count = 0, total_bytes = 0,
                    first_msg_time = None, last_msg_time = None\<rparr>"

text \<open>
  The subscriber's environment answers its calls in order. \<open>ticks k\<close> is the value of
  the performance counter at the \<open>k\<close>-th call of \<^verbatim>\<open>time.perf_counter()\<close>, counted
  from 0, as the whole number of nanoseconds that the interpreter reads from the
  operating system and converts to seconds; \<open>takes p\<close> is what the transport has ready
  at the \<open>p\<close>-th call of \<^verbatim>\<open>reader.take(1000)\<close>, of which at most 1000 samples are
  returned. \<^verbatim>\<open>time.sleep(0.001)\<close> has no effect of its own in this model: the time
  it takes shows in the later clock readings.
\<close>

record sub_env =
  ticks :: "nat \<Rightarrow> int"
  takes :: "nat \<Rightarrow> sample list"

definition sub_perf_counter :: "sub_env \<Rightarrow> nat \<Rightarrow> real" where
  "sub_perf_counter env k = of_int (ticks env k) / 1000000000"

definition reader_take :: "sub_env \<Rightarrow> nat \<Rightarrow> sample list" where
  "reader_take env p = take 1000 (takes env p)"

text \<open>The loop's state: the window, and how many clock readings and polls were made.\<close>

record sub_state =
  win :: window
  reads :: nat
  polls :: nat

text \<open>Lines 92 to 101: the body of \<^verbatim>\<open>for sample in samples\<close> (the progress line
  printed every 100 messages changes no variable and is left out).\<close>

definition process_sample :: "real \<Rightarrow> sample \<Rightarrow> window \<Rightarrow> window" where
  "process_sample now smp w =
     (case smp of
        InvalidSample \<Rightarrow> w
      | BenchmarkData d \<Rightarrow>
          w\<lparr>first_msg_time := (if first_msg_time w = None then Some now else first_msg_time w),
            last_msg_time := Some now,
            received_count := received_count w + 1,
            total_bytes := total_bytes w + int (length d)\<rparr>)"

definition process_batch :: "real \<Rightarrow> sample list \<Rightarrow> window \<Rightarrow> window" where
  "process_batch now samples w = fold (process_sample now) samples w"

text \<open>Line 81: \<^verbatim>\<open>time.perf_counter() - start_wait > args.timeout\<close>, at the next reading.\<close>

definition timed_out :: "sub_env \<Rightarrow> pyfloat \<Rightarrow> real \<Rightarrow> sub_state \<Rightarrow> bool" where
  "timed_out env timeout start_wait s \<longleftrightarrow>
     float_gt (sub_perf_counter env (reads s) - start_wait) timeout"

text \<open>
  Lines 86 to 108, the rest of an iteration whose timeout check has passed: the check
  has used the reading \<open>reads s\<close>, a non-empty batch reads the clock once more.
\<close>

definition poll_step :: "sub_env \<Rightarrow> sub_state \<Rightarrow> sub_state" where
  "poll_step env s =
     (let samples = reader_take env (polls s)
      in if samples \<noteq> [] then
           (let now = sub_perf_counter env (Suc (reads s))
            in s\<lparr>win := process_batch now samples (win s),
                 reads := reads s + 2, polls := Suc (polls s)\<rparr>)
         else s\<lparr>reads := Suc (reads s), polls := Suc (polls s)\<rparr>)"

datatype outcome = Complete | Timeout

text \<open>
  Lines 79 to 108: the \<^verbatim>\<open>while\<close> loop. It leaves with \<open>Complete\<close> when its condition
  fails and with \<open>Timeout\<close> through the \<^verbatim>\<open>break\<close>. A run that never leaves the loop
  has the value \<open>None\<close>.
\<close>

partial_function (option) receiver_loop ::
  "sub_env \<Rightarrow> int \<Rightarrow> pyfloat \<Rightarrow> real \<Rightarrow> sub_state \<Rightarrow> (outcome \<times> sub_state) option" where
  "receiver_loop env cnt timeout start_wait s =
     (if received_count (win s) < cnt then
        (if timed_out env timeout start_wait s
         then Some (Timeout, s\<lparr>reads := Suc (reads s)\<rparr>)
         else receiver_loop env cnt timeout start_wait (poll_step env s))
      else Some (Complete, s))"


text \<open>A throughput figure: a number, or \<^verbatim>\<open>float('inf')\<close>.\<close>

datatype rate = Fin real | PosInf

fun times8 :: "rate \<Rightarrow> rate" where
  "times8 (Fin x) = Fin (x * 8)"
| "times8 PosInf = PosInf"

text \<open>Python's true division, which raises on a divisor of zero.\<close>

definition py_truediv :: "real \<Rightarrow> real \<Rightarrow> py_error + real" where
  "py_truediv a b = (if b = 0 then Inl ZeroDivisionError else Inr (a / b))"

text \<open>The branch of lines 120 to 123: \<^verbatim>\<open>elapsed = 0\<close> and both rates 0.\<close>

definition no_rates :: "py_error + (real \<times> rate \<times> rate)" where
  "no_rates = Inr (0, Fin 0, Fin 0)"

text \<open>
  Lines 111 to 123, giving \<^verbatim>\<open>(elapsed, throughput_msgs, throughput_mbps)\<close>. The
  condition \<^verbatim>\<open>first_msg_time and last_msg_time and received_count > 1\<close> tests the
  truth value of the two times: \<^verbatim>\<open>None\<close> is false, and so is the float 0.0.
\<close>

definition throughput :: "window \<Rightarrow> py_error + (real \<times> rate \<times> rate)" where
  "throughput w =
     (case first_msg_time w of
        None \<Rightarrow> no_rates
      | Some first_t \<Rightarrow>
          if first_t = 0 then no_rates
          else
            (case last_msg_time w of
               None \<Rightarrow> no_rates
             | Some last_t \<Rightarrow>
                 if last_t = 0 then no_rates
                 else if received_count w > 1 then
                   (let elapsed = last_t - first_t
                    in if elapsed > 0 then
                         (case py_truediv (of_int (received_count w - 1)) elapsed of
                            Inl e \<Rightarrow> Inl e
                          | Inr throughput_msgs \<Rightarrow>
                              (case py_truediv (of_int (total_bytes w)) elapsed of
                                 Inl e \<Rightarrow> Inl e
                               | Inr throughput_bytes \<Rightarrow>
                                   Inr (elapsed, Fin throughput_msgs,
                                        Fin (throughput_bytes / (1024 * 1024)))))
                       else Inr (elapsed, PosInf, PosInf))
                 else no_rates))"

text \<open>Lines 133 to 135: the loss rate, printed only when messages are missing.\<close>

definition loss_rate :: "int \<Rightarrow> int \<Rightarrow> py_error + real option" where
  "loss_rate cnt received =
     (if received < cnt then
        (case py_truediv (of_int (cnt - received)) (of_int cnt) of
           Inl e \<Rightarrow> Inl e
         | Inr q \<Rightarrow> Inr (Some (q * 100)))
      else Inr None)"

text \<open>What the subscriber prints (lines 125 to 135).\<close>

record sub_result =
  sub_received :: int
  sub_total_bytes :: int
  sub_elapsed :: real
  sub_throughput_msgs :: rate
  sub_throughput_mbps :: rate
  sub_throughput_bits :: rate
  sub_loss :: "real option"

definition sub_report :: "int \<Rightarrow> window \<Rightarrow> py_error + sub_result" where
  "sub_report cnt w =
     (case throughput w of
        Inl e \<Rightarrow> Inl e
      | Inr (elapsed, throughput_msgs, throughput_mbps) \<Rightarrow>
          (case loss_rate cnt (received_count w) of
             Inl e \<Rightarrow> Inl e
           | Inr loss \<Rightarrow>
               Inr \<lparr>sub_received = received_count w,
                    sub_total_bytes = total_bytes w,
                    sub_elapsed = elapsed,
                    sub_throughput_msgs = throughput_msgs,
                    sub_throughput_mbps = throughput_mbps,
                    sub_throughput_bits = times8 throughput_mbps,
                    sub_loss = loss\<rparr>))"

text \<open>
  Lines 72 to 135 of \<^verbatim>\<open>main\<close>: initialise, read \<^verbatim>\<open>start_wait\<close> (clock reading 0),
  run the loop, report. \<open>None\<close>: the loop never ends; \<open>Some (Inl e)\<close>: the report
  raises \<open>e\<close>; \<open>Some (Inr (oc, r))\<close>: the loop ended in \<open>oc\<close> and \<open>r\<close> is printed.
\<close>

definition initial_state :: sub_state where
  "initial_state = \<lparr>win = empty_window, reads = 1, polls = 0\<rparr>"

definition sub_main :: "sub_env \<Rightarrow> sub_args \<Rightarrow> (py_error + (outcome \<times> sub_result)) option" where
  "sub_main env args =
     (let start_wait = sub_perf_counter env 0
      in case receiver_loop env (sub_count args) (sub_timeout args) start_wait initial_state of
           None \<Rightarrow> None
         | Some (oc, s) \<Rightarrow>
             Some (case sub_report (sub_count args) (win s) of
                     Inl e \<Rightarrow> Inl e
                   | Inr r \<Rightarrow> Inr (oc, r)))"

subsection \<open>Concrete inputs used by the witnesses\<close>





definition env0 :: sub_env where
  "env0 = \<lparr>ticks = (\<lambda>k. 1000000000 * int k + 5000000000),
            takes = (\<lambda>p. if p = 0 then [InvalidSample, BenchmarkData [1, 2, 3]]
                          else if p = 1 then [BenchmarkData [4], BenchmarkData [5, 6]]
                          else [])\<rparr>"

definition silent_env :: sub_env where
  "silent_env = \<lparr>ticks = (\<lambda>k. 1000000 * int k), takes = (\<lambda>p. [])\<rparr>"

definition window_1000 :: window where
  "window_1000 = \<lparr>received_count = 1000, total_bytes = 1048576,
                    first_msg_time = Some 5, last_msg_time = Some 6\<rparr>"

subsection \<open>Lemmas on the payload generator\<close>

lemma length_range_py: "length (range_py n) = nat n"
  by (simp add: range_py_def)

lemma nth_range_py: "0 \<le> i \<Longrightarrow> i < n \<Longrightarrow> range_py n ! nat i = i"
  by (simp add: range_py_def)

text \<open>
  Claim C2. For every size \<open>\<ge> 0\<close> the payload generator returns a byte sequence of
  length exactly \<open>size\<close> whose byte at every index \<open>i\<close> has the value \<open>i mod 256\<close>. The
  generator is a function of \<open>size\<close> alone, so two calls with the same size return the
  same sequence.
\<close>

theorem make_data_bytes_contents:
  "0 \<le> sz \<Longrightarrow>
     int (length (make_data_bytes sz)) = sz \<and>
     (\<forall>i. 0 \<le> i \<and> i < sz \<longrightarrow> uint (make_data_bytes sz ! nat i) = i mod 256) \<and>
     (\<forall>sz'. sz' = sz \<longrightarrow> make_data_bytes sz' = make_data_bytes sz)"
proof (intro conjI allI impI)
  assume "0 \<le> sz"
  then show "int (length (make_data_bytes sz)) = sz"
    by (simp add: make_data_bytes_def length_range_py)
next
  fix i :: int
  assume "0 \<le> i \<and> i < sz"
  then have i: "0 \<le> i" "i < sz" by simp_all
  then have "nat i < length (range_py sz)"
    by (simp add: length_range_py)
  then have "make_data_bytes sz ! nat i = word_of_int (range_py sz ! nat i mod 256)"
    by (simp add: make_data_bytes_def)
  also have "\<dots> = word_of_int (i mod 256)"
    using i by (simp add: nth_range_py)
  finally have "uint (make_data_bytes sz ! nat i) = uint (word_of_int (i mod 256) :: byte)"
    by simp
  also have "\<dots> = (i mod 256) mod 256"
    by (simp add: uint_word_of_int take_bit_eq_mod)
  finally show "uint (make_data_bytes sz ! nat i) = i mod 256"
    by simp
next
  fix sz' :: int
  assume "sz' = sz"
  then show "make_data_bytes sz' = make_data_bytes sz" by simp
qed

theorem make_data_bytes_contents_witness:
  "(0::int) \<le> 300 \<and> int (length (make_data_bytes 300)) = 300 \<and>
   uint (make_data_bytes 300 ! nat 299) = 43"
proof -
  have h: "(0::int) \<le> 300" by simp
  note t = make_data_bytes_contents [OF h]
  from t have len: "int (length (make_data_bytes 300)) = 300" by blast
  from t have "(0::int) \<le> 299 \<and> (299::int) < 300 \<longrightarrow>
      uint (make_data_bytes 300 ! nat 299) = 299 mod 256" by blast
  then have "uint (make_data_bytes 300 ! nat 299) = 43" by simp
  with h len show ?thesis by blast
qed

subsection \<open>Lemmas on the publisher\<close>





























subsection \<open>Lemmas on the subscriber's batch processing\<close>

lemma process_sample_invalid: "process_sample now InvalidSample w = w"
  by (simp add: process_sample_def)

lemma process_batch_Nil: "process_batch now [] w = w"
  by (simp add: process_batch_def)

lemma process_batch_Cons:
  "process_batch now (smp # samples) w = process_batch now samples (process_sample now smp w)"
  by (simp add: process_batch_def)

lemma process_batch_filter:
  "process_batch now samples w = process_batch now (filter is_BenchmarkData samples) w"
proof (induction samples arbitrary: w)
  case Nil
  show ?case by simp
next
  case (Cons smp samples)
  show ?case
  proof (cases smp)
    case (BenchmarkData d)
    then show ?thesis using Cons.IH by (simp add: process_batch_Cons)
  next
    case InvalidSample
    then show ?thesis using Cons.IH by (simp add: process_batch_Cons process_sample_invalid)
  qed
qed

lemma process_batch_received:
  "received_count (process_batch now samples w) =
     received_count w + int (length (filter is_BenchmarkData samples))"
proof (induction samples arbitrary: w)
  case Nil
  show ?case by (simp add: process_batch_Nil)
next
  case (Cons smp samples)
  show ?case
    by (cases smp) (simp_all add: process_batch_Cons Cons.IH process_sample_def)
qed

lemma process_batch_bytes:
  "total_bytes (process_batch now samples w) =
     total_bytes w + sum_list (map (\<lambda>smp. int (length (data smp))) (filter is_BenchmarkData samples))"
proof (induction samples arbitrary: w)
  case Nil
  show ?case by (simp add: process_batch_Nil)
next
  case (Cons smp samples)
  show ?case
    by (cases smp) (simp_all add: process_batch_Cons Cons.IH process_sample_def)
qed

lemma process_batch_first_kept:
  "first_msg_time w = Some t \<Longrightarrow> first_msg_time (process_batch now samples w) = Some t"
proof (induction samples arbitrary: w)
  case Nil
  then show ?case by (simp add: process_batch_Nil)
next
  case (Cons smp samples)
  have "first_msg_time (process_sample now smp w) = Some t"
    using Cons.prems by (cases smp) (simp_all add: process_sample_def)
  then show ?case by (simp add: process_batch_Cons Cons.IH)
qed

lemma process_batch_no_data:
  "filter is_BenchmarkData samples = [] \<Longrightarrow> process_batch now samples w = w"
  using process_batch_filter [of now samples w] by (simp add: process_batch_Nil)

lemma process_batch_last:
  "filter is_BenchmarkData samples \<noteq> [] \<Longrightarrow>
     last_msg_time (process_batch now samples w) = Some now"
proof (induction samples arbitrary: w rule: rev_induct)
  case Nil
  then show ?case by simp
next
  case (snoc smp samples)
  have step: "process_batch now (samples @ [smp]) w =
      process_sample now smp (process_batch now samples w)"
    by (simp add: process_batch_def)
  show ?case
  proof (cases smp)
    case (BenchmarkData d)
    show ?thesis unfolding step using BenchmarkData by (simp add: process_sample_def)
  next
    case InvalidSample
    then have "filter is_BenchmarkData samples \<noteq> []" using snoc.prems by simp
    then have "last_msg_time (process_batch now samples w) = Some now" by (rule snoc.IH)
    then show ?thesis unfolding step using InvalidSample by (simp add: process_sample_invalid)
  qed
qed

lemma process_batch_first_set:
  "filter is_BenchmarkData samples \<noteq> [] \<Longrightarrow> first_msg_time w = None \<Longrightarrow>
     first_msg_time (process_batch now samples w) = Some now"
proof (induction samples arbitrary: w)
  case Nil
  then show ?case by simp
next
  case (Cons smp samples)
  show ?case
  proof (cases smp)
    case (BenchmarkData d)
    have "first_msg_time (process_sample now smp w) = Some now"
      using Cons.prems BenchmarkData by (simp add: process_sample_def)
    then show ?thesis by (simp add: process_batch_Cons process_batch_first_kept)
  next
    case InvalidSample
    then show ?thesis using Cons by (simp add: process_batch_Cons process_sample_invalid)
  qed
qed

text \<open>
  Claim C6. Samples that are not data samples are skipped and leave the reception
  window as it is: processing a batch is processing its data samples alone, so that
  \<^verbatim>\<open>received_count\<close> grows by the number of data samples of the batch and
  \<^verbatim>\<open>total_bytes\<close> by the sum of their payload lengths. A batch of one invalid and
  one data sample adds exactly 1 and exactly that sample's length, and a batch of an
  invalid sample alone changes nothing. Batch processing has no failing branch.
\<close>

theorem process_batch_ignores_invalid:
  "process_batch now samples w = process_batch now (filter is_BenchmarkData samples) w \<and>
   received_count (process_batch now samples w) =
     received_count w + int (length (filter is_BenchmarkData samples)) \<and>
   total_bytes (process_batch now samples w) =
     total_bytes w + sum_list (map (\<lambda>smp. int (length (data smp))) (filter is_BenchmarkData samples)) \<and>
   received_count (process_batch now [InvalidSample, BenchmarkData d] w) = received_count w + 1 \<and>
   total_bytes (process_batch now [InvalidSample, BenchmarkData d] w) =
     total_bytes w + int (length d) \<and>
   process_batch now [InvalidSample] w = w"
  using process_batch_filter [of now samples w]
  by (simp add: process_batch_received process_batch_bytes process_batch_no_data)

text \<open>
  Against claim C7 as stated: a batch that is not empty but holds an invalid sample
  only assigns neither \<^verbatim>\<open>first_msg_time\<close> nor \<^verbatim>\<open>last_msg_time\<close>.
\<close>

theorem reception_window_counterexample:
  "[InvalidSample] \<noteq> [] \<and>
   first_msg_time (process_batch 7 [InvalidSample] empty_window) = None \<and>
   last_msg_time (process_batch 7 [InvalidSample] empty_window) \<noteq> Some 7"
  by (simp add: process_batch_def process_sample_def empty_window_def)

lemma win_poll_step:
  "win (poll_step env s) =
     process_batch (sub_perf_counter env (Suc (reads s))) (reader_take env (polls s)) (win s)"
  by (simp add: poll_step_def Let_def process_batch_Nil)

text \<open>
  Claim C7, amended. Across any poll iteration \<^verbatim>\<open>received_count\<close> and
  \<^verbatim>\<open>total_bytes\<close> never decrease, and a \<^verbatim>\<open>first_msg_time\<close> that is set is never
  changed. A batch that holds at least one data sample sets \<^verbatim>\<open>last_msg_time\<close> to
  the time of the batch, and \<^verbatim>\<open>first_msg_time\<close> too when it was still unset. A batch
  with no data sample (empty or not) leaves the whole window unchanged.
\<close>

theorem reception_window_monotone:
  "received_count (win s) \<le> received_count (win (poll_step env s)) \<and>
   total_bytes (win s) \<le> total_bytes (win (poll_step env s)) \<and>
   (first_msg_time (win s) = Some t \<longrightarrow> first_msg_time (win (poll_step env s)) = Some t) \<and>
   (filter is_BenchmarkData (reader_take env (polls s)) \<noteq> [] \<longrightarrow>
      last_msg_time (win (poll_step env s)) = Some (sub_perf_counter env (Suc (reads s))) \<and>
      (first_msg_time (win s) = None \<longrightarrow>
         first_msg_time (win (poll_step env s)) = Some (sub_perf_counter env (Suc (reads s))))) \<and>
   (filter is_BenchmarkData (reader_take env (polls s)) = [] \<longrightarrow>
      win (poll_step env s) = win s)"
proof -
  have nonneg: "0 \<le> sum_list (map (\<lambda>smp. int (length (data smp))) xs)" for xs :: "sample list"
    by (induction xs) simp_all
  show ?thesis
    unfolding win_poll_step
    using nonneg [of "filter is_BenchmarkData (reader_take env (polls s))"]
    by (simp add: process_batch_received process_batch_bytes process_batch_first_kept
        process_batch_last process_batch_first_set process_batch_no_data)
qed


subsection \<open>Lemmas on the receive loop\<close>

lemma receiver_loop_complete:
  "\<not> received_count (win s) < cnt \<Longrightarrow>
     receiver_loop env cnt timeout start_wait s = Some (Complete, s)"
  by (subst receiver_loop.simps) simp

lemma receiver_loop_timeout:
  "received_count (win s) < cnt \<Longrightarrow> timed_out env timeout start_wait s \<Longrightarrow>
     receiver_loop env cnt timeout start_wait s = Some (Timeout, s\<lparr>reads := Suc (reads s)\<rparr>)"
  by (subst receiver_loop.simps) simp

lemma receiver_loop_step:
  "received_count (win s) < cnt \<Longrightarrow> \<not> timed_out env timeout start_wait s \<Longrightarrow>
     receiver_loop env cnt timeout start_wait s =
       receiver_loop env cnt timeout start_wait (poll_step env s)"
  by (subst receiver_loop.simps) simp

lemma perf_counter_env0: "sub_perf_counter env0 k = real k + 5"
  by (simp add: sub_perf_counter_def env0_def add_divide_distrib)

lemma reader_take_env0:
  "reader_take env0 0 = [InvalidSample, BenchmarkData [1, 2, 3]]"
  "reader_take env0 (Suc 0) = [BenchmarkData [4], BenchmarkData [5, 6]]"
  "2 \<le> p \<Longrightarrow> reader_take env0 p = []"
  by (simp_all add: reader_take_def env0_def)

lemma poll_step_env0_initial:
  "poll_step env0 initial_state =
     \<lparr>win = \<lparr>received_count = 1, total_bytes = 3, first_msg_time = Some 7,
              last_msg_time = Some 7\<rparr>, reads = 3, polls = 1\<rparr>"
  by (simp add: poll_step_def initial_state_def reader_take_env0 perf_counter_env0
      process_batch_def process_sample_def empty_window_def Let_def)

theorem reception_window_monotone_witness:
  "received_count (win initial_state) \<le> received_count (win (poll_step env0 initial_state)) \<and>
   win (poll_step env0 initial_state) =
     \<lparr>received_count = 1, total_bytes = 3, first_msg_time = Some 7, last_msg_time = Some 7\<rparr> \<and>
   last_msg_time (win (poll_step env0 initial_state)) =
     Some (sub_perf_counter env0 (Suc (reads initial_state)))"
proof -
  have d: "filter is_BenchmarkData (reader_take env0 (polls initial_state)) \<noteq> []"
    by (simp add: reader_take_env0 initial_state_def)
  note t = reception_window_monotone [of initial_state env0]
  from t have a: "received_count (win initial_state)
      \<le> received_count (win (poll_step env0 initial_state))" by blast
  from t d have b: "last_msg_time (win (poll_step env0 initial_state)) =
     Some (sub_perf_counter env0 (Suc (reads initial_state)))" by blast
  from a b show ?thesis by (simp add: poll_step_env0_initial)
qed

theorem process_batch_ignores_invalid_witness:
  "received_count (process_batch 7 [InvalidSample, BenchmarkData [1, 2, 3]] empty_window) = 1 \<and>
   total_bytes (process_batch 7 [InvalidSample, BenchmarkData [1, 2, 3]] empty_window) = 3"
  using process_batch_ignores_invalid [of 7 "[]" empty_window "[1, 2, 3]"]
  by (simp add: empty_window_def)

subsection \<open>Final report\<close>

lemma loss_rate_no_raise:
  "0 \<le> received \<Longrightarrow>
     loss_rate cnt received =
       Inr (if received < cnt then Some (of_int (cnt - received) / of_int cnt * 100) else None)"
  by (simp add: loss_rate_def py_truediv_def)

text \<open>
  Against claim C1 as stated: with 1000 messages, 1048576 bytes and one second between
  the first and the last arrival, the reported message rate is 999, not 1000.
\<close>

theorem throughput_report_counterexample:
  "throughput window_1000 = Inr (1, Fin 999, Fin 1) \<and>
   throughput window_1000 \<noteq> Inr (1, Fin (1000 / 1), Fin 1)"
  by (simp add: throughput_def window_1000_def py_truediv_def)

text \<open>
  Claim C1, amended. For every \<^verbatim>\<open>received_count\<close> above 1, every \<^verbatim>\<open>total_bytes\<close> and
  every elapsed time \<open>t1 - t0 > 0\<close> between a first and a last arrival whose clock
  readings are not zero, the subscriber reports the message rate
  \<open>(received_count - 1) / elapsed\<close> (the messages after the first one), the byte rate
  \<open>(total_bytes / elapsed) / (1024 * 1024)\<close> and the bit rate eight times that; the
  report raises nothing. With 1000 messages, 1048576 bytes and one second these are 999,
  1 and 8.
\<close>

theorem throughput_between_first_and_last:
  assumes "first_msg_time w = Some t0" and "last_msg_time w = Some t1"
    and "t0 \<noteq> 0" and "t1 \<noteq> 0" and "1 < received_count w" and "0 < t1 - t0"
  shows "\<exists>r. sub_report cnt w = Inr r \<and>
     sub_elapsed r = t1 - t0 \<and>
     sub_throughput_msgs r = Fin (of_int (received_count w - 1) / (t1 - t0)) \<and>
     sub_throughput_mbps r = Fin ((of_int (total_bytes w) / (t1 - t0)) / (1024 * 1024)) \<and>
     sub_throughput_bits r = Fin ((of_int (total_bytes w) / (t1 - t0)) / (1024 * 1024) * 8)"
proof -
  have th: "throughput w = Inr (t1 - t0, Fin (of_int (received_count w - 1) / (t1 - t0)),
      Fin ((of_int (total_bytes w) / (t1 - t0)) / (1024 * 1024)))"
    using assms by (simp add: throughput_def py_truediv_def Let_def)
  have "0 \<le> received_count w" using assms(5) by simp
  then have lr: "loss_rate cnt (received_count w) =
       Inr (if received_count w < cnt
            then Some (of_int (cnt - received_count w) / of_int cnt * 100) else None)"
    by (rule loss_rate_no_raise)
  show ?thesis by (simp add: sub_report_def th lr)
qed

theorem throughput_between_first_and_last_witness:
  "\<exists>r. sub_report 1000 window_1000 = Inr r \<and> sub_elapsed r = 1 \<and>
     sub_throughput_msgs r = Fin 999 \<and> sub_throughput_mbps r = Fin 1 \<and>
     sub_throughput_bits r = Fin 8"
  using throughput_between_first_and_last [of window_1000 5 6 1000]
  by (simp add: window_1000_def)

lemma throughput_never_raises: "\<exists>r. throughput w = Inr r"
  by (simp add: throughput_def no_rates_def py_truediv_def Let_def
      split: option.splits)

lemma throughput_degenerate:
  "received_count w \<le> 1 \<Longrightarrow> throughput w = Inr (0, Fin 0, Fin 0)"
  by (simp add: throughput_def no_rates_def split: option.splits)

lemma throughput_unbounded:
  "first_msg_time w = Some t0 \<Longrightarrow> last_msg_time w = Some t1 \<Longrightarrow> t0 \<noteq> 0 \<Longrightarrow> t1 \<noteq> 0 \<Longrightarrow>
   1 < received_count w \<Longrightarrow> t1 - t0 = 0 \<Longrightarrow> throughput w = Inr (0, PosInf, PosInf)"
  by (simp add: throughput_def)

text \<open>
  Claim C4. The final rate computation never divides by zero: for every window it
  returns figures and raises nothing; for every window with \<^verbatim>\<open>received_count\<close> at
  most 1 the elapsed time, the message rate and the byte rate are all zero; and for
  \<^verbatim>\<open>received_count\<close> above 1 with the first and the last arrival at the same clock
  reading, the message rate and the byte rate are the unbounded value. An arrival time
  is a reading of the running performance counter, which is never 0.0.
\<close>

theorem throughput_never_divides_by_zero:
  "(\<exists>r. throughput w = Inr r) \<and>
   (received_count w \<le> 1 \<longrightarrow> throughput w = Inr (0, Fin 0, Fin 0)) \<and>
   (1 < received_count w \<and> first_msg_time w = Some t0 \<and> last_msg_time w = Some t1 \<and>
    t0 \<noteq> 0 \<and> t1 \<noteq> 0 \<and> t1 - t0 = 0 \<longrightarrow>
      throughput w = Inr (0, PosInf, PosInf))"
  using throughput_never_raises [of w] throughput_degenerate [of w]
    throughput_unbounded [of w t0 t1]
  by blast

theorem throughput_never_divides_by_zero_witness:
  "throughput empty_window = Inr (0, Fin 0, Fin 0) \<and>
   throughput \<lparr>received_count = 2, total_bytes = 2048,
               first_msg_time = Some 7, last_msg_time = Some 7\<rparr> = Inr (0, PosInf, PosInf)"
proof -
  have a: "received_count empty_window \<le> 1" by (simp add: empty_window_def)
  let ?w = "\<lparr>received_count = 2, total_bytes = 2048,
             first_msg_time = Some 7, last_msg_time = Some (7 :: real)\<rparr>"
  have b: "1 < received_count ?w \<and> first_msg_time ?w = Some 7 \<and> last_msg_time ?w = Some 7 \<and>
      (7 :: real) \<noteq> 0 \<and> (7 :: real) \<noteq> 0 \<and> (7 :: real) - 7 = 0"
    by simp
  from throughput_never_divides_by_zero [of empty_window] a
  have c: "throughput empty_window = Inr (0, Fin 0, Fin 0)" by blast
  from throughput_never_divides_by_zero [of ?w 7 7] b
  have d: "throughput ?w = Inr (0, PosInf, PosInf)" by blast
  from c d show ?thesis by simp
qed

text \<open>
  Why the theorem asks for readings other than zero: the test on line 111 is a test of
  truth values, and Python takes the float 0.0 for false. A window stamped 0.0 goes to
  the branch of lines 120 to 123 whatever its count is.
\<close>

lemma throughput_zero_stamp:
  "throughput \<lparr>received_count = 2, total_bytes = 2048,
               first_msg_time = Some 0, last_msg_time = Some 0\<rparr> = Inr (0, Fin 0, Fin 0)"
  by (simp add: throughput_def no_rates_def)


subsection \<open>Termination of the receive loop\<close>

lemma ticks_lower_bound:
  assumes "strict_mono (ticks env)"
  shows "ticks env 0 + int k \<le> ticks env k"
proof (induction k)
  case 0
  show ?case by simp
next
  case (Suc k)
  have "ticks env k < ticks env (Suc k)"
    using assms by (simp add: strict_mono_def)
  with Suc show ?case by simp
qed

lemma deadline_reached:
  assumes "strict_mono (ticks env)"
  shows "\<exists>N. \<forall>s. N \<le> reads s \<longrightarrow> timed_out env (Finite timeout) (sub_perf_counter env 0) s"
proof -
  obtain N :: nat where N: "timeout * 1000000000 < real N"
    using reals_Archimedean2 by blast
  have "timed_out env (Finite timeout) (sub_perf_counter env 0) s" if "N \<le> reads s" for s
  proof -
    have "ticks env 0 + int (reads s) \<le> ticks env (reads s)"
      using assms by (rule ticks_lower_bound)
    then have "real (reads s) \<le> of_int (ticks env (reads s)) - of_int (ticks env 0)"
      by linarith
    moreover have "real N \<le> real (reads s)" using that by simp
    ultimately have "timeout * 1000000000 < of_int (ticks env (reads s)) - of_int (ticks env 0)"
      using N by linarith
    then have "timeout < (of_int (ticks env (reads s)) - of_int (ticks env 0)) / 1000000000"
      by (simp add: pos_less_divide_eq)
    then show ?thesis
      by (simp add: timed_out_def sub_perf_counter_def diff_divide_distrib)
  qed
  then show ?thesis by blast
qed

lemma reads_poll_step: "reads s < reads (poll_step env s)"
  by (simp add: poll_step_def Let_def)


lemma received_poll_step: "received_count (win s) \<le> received_count (win (poll_step env s))"
  by (simp add: win_poll_step process_batch_received)

lemma receiver_loop_ends:
  assumes dl: "\<forall>s. N \<le> reads s \<longrightarrow> timed_out env timeout start_wait s"
  shows "\<exists>oc s'. receiver_loop env cnt timeout start_wait s = Some (oc, s') \<and>
           received_count (win s) \<le> received_count (win s') \<and>
           (oc = Complete \<longrightarrow> \<not> received_count (win s') < cnt) \<and>
           (oc = Timeout \<longrightarrow> received_count (win s') < cnt \<and> 0 < reads s' \<and>
              float_gt (sub_perf_counter env (reads s' - 1) - start_wait) timeout)"
proof (induction "N - reads s" arbitrary: s rule: less_induct)
  case less
  show ?case
  proof (cases "received_count (win s) < cnt")
    case False
    then show ?thesis by (simp add: receiver_loop_complete)
  next
    case True
    show ?thesis
    proof (cases "timed_out env timeout start_wait s")
      case to: True
      then have "float_gt (sub_perf_counter env (reads s) - start_wait) timeout"
        by (simp add: timed_out_def)
      then show ?thesis using True to by (simp add: receiver_loop_timeout)
    next
      case nto: False
      then have "reads s < N" using dl by (meson not_le)
      then have "N - reads (poll_step env s) < N - reads s"
        using reads_poll_step [of s env] by linarith
      from less [OF this] obtain oc s' where
        r: "receiver_loop env cnt timeout start_wait (poll_step env s) = Some (oc, s')"
        and m: "received_count (win (poll_step env s)) \<le> received_count (win s')"
        and c: "oc = Complete \<longrightarrow> \<not> received_count (win s') < cnt"
        and t: "oc = Timeout \<longrightarrow> received_count (win s') < cnt \<and> 0 < reads s' \<and>
              float_gt (sub_perf_counter env (reads s' - 1) - start_wait) timeout"
        by blast
      have "receiver_loop env cnt timeout start_wait s = Some (oc, s')"
        using True nto r by (simp add: receiver_loop_step)
      moreover have "received_count (win s) \<le> received_count (win s')"
        using m received_poll_step [of s env] by linarith
      ultimately show ?thesis using c t by blast
    qed
  qed
qed

lemma sub_report_no_raise:
  "0 \<le> received_count w \<Longrightarrow>
     \<exists>r. sub_report cnt w = Inr r \<and> sub_received r = received_count w \<and>
         sub_total_bytes r = total_bytes w \<and>
         sub_loss r = (if received_count w < cnt
                       then Some (of_int (cnt - received_count w) / of_int cnt * 100) else None)"
proof -
  assume nn: "0 \<le> received_count w"
  obtain e m b where th: "throughput w = Inr (e, m, b)"
    using throughput_never_raises [of w] by (metis prod_cases3)
  show ?thesis
    by (simp add: sub_report_def th loss_rate_no_raise [OF nn])
qed

text \<open>
  With a timeout that the test of line 81 can never exceed (\<^verbatim>\<open>inf\<close> or \<^verbatim>\<open>nan\<close>), a
  loop that still waits for messages on a transport that stays silent never ends.
\<close>

lemma receiver_loop_never_ends:
  assumes nt: "\<forall>s. \<not> timed_out env timeout start_wait s"
    and lt: "received_count (win s) < cnt"
    and silent: "\<forall>p\<ge>polls s. reader_take env p = []"
  shows "receiver_loop env cnt timeout start_wait s = None"
proof (cases "receiver_loop env cnt timeout start_wait s")
  case None
  then show ?thesis .
next
  case (Some y)
  let ?P = "\<lambda>e c t w (s0 :: sub_state) (y :: outcome \<times> sub_state).
      e = env \<and> c = cnt \<and> t = timeout \<and> w = start_wait \<longrightarrow>
      received_count (win s0) < cnt \<longrightarrow> (\<forall>p\<ge>polls s0. reader_take env p = []) \<longrightarrow> False"
  have "?P env cnt timeout start_wait s y"
  proof (rule receiver_loop.raw_induct [where P = ?P, OF _ Some])
    fix loop e c t w s0 y'
    assume IH: "\<And>e c t w s0 y. loop e c t w s0 = Some y \<Longrightarrow> ?P e c t w s0 y"
    assume body: "(if received_count (win s0) < c
        then if timed_out e t w s0 then Some (Timeout, s0\<lparr>reads := Suc (reads s0)\<rparr>)
             else loop e c t w (poll_step e s0)
        else Some (Complete, s0)) = Some y'"
    show "?P e c t w s0 y'"
    proof (intro impI)
      assume eq: "e = env \<and> c = cnt \<and> t = timeout \<and> w = start_wait"
        and l: "received_count (win s0) < cnt"
        and q: "\<forall>p\<ge>polls s0. reader_take env p = []"
      have e0: "reader_take env (polls s0) = []" using q by simp
      have w': "win (poll_step env s0) = win s0"
        by (simp add: poll_step_def e0 Let_def)
      have q': "\<forall>p\<ge>polls (poll_step env s0). reader_take env p = []"
        using q by (simp add: poll_step_def e0 Let_def)
      from body eq l nt have "loop env cnt timeout start_wait (poll_step env s0) = Some y'"
        by simp
      from IH [OF this] l w' q' show False by simp
    qed
  qed
  with lt silent show ?thesis by simp
qed

lemma strict_mono_silent_env: "strict_mono (ticks silent_env)"
  by (simp add: strict_mono_def silent_env_def)

text \<open>
  Against claim C8 as stated: with \<^verbatim>\<open>--timeout inf\<close>, one message expected, a silent
  transport and a strictly increasing clock, the loop never ends and \<^verbatim>\<open>main\<close> never
  reaches its report.
\<close>

theorem receiver_loop_counterexample:
  "strict_mono (ticks silent_env) \<and>
   receiver_loop silent_env 1 PlusInf (sub_perf_counter silent_env 0) initial_state = None \<and>
   sub_main silent_env \<lparr>sub_count = 1, sub_timeout = PlusInf\<rparr> = None"
proof -
  have nt: "\<forall>s. \<not> timed_out silent_env PlusInf (sub_perf_counter silent_env 0) s"
    by (simp add: timed_out_def)
  have lt: "received_count (win initial_state) < 1"
    by (simp add: initial_state_def empty_window_def)
  have q: "\<forall>p\<ge>polls initial_state. reader_take silent_env p = []"
    by (simp add: reader_take_def silent_env_def)
  have l: "receiver_loop silent_env 1 PlusInf (sub_perf_counter silent_env 0) initial_state = None"
    using nt lt q by (rule receiver_loop_never_ends)
  then show ?thesis
    by (simp add: sub_main_def strict_mono_silent_env)
qed


text \<open>
  Claim C8, amended. For every transport trace, every strictly increasing clock and
  every finite timeout the receive loop ends, in one of two states: \<open>Complete\<close>, where
  \<^verbatim>\<open>received_count\<close> is no longer below the expected count, or \<open>Timeout\<close>, where the
  count is still below it and the last clock reading is more than the timeout after
  \<^verbatim>\<open>start_wait\<close>. In both states \<^verbatim>\<open>main\<close> goes on to the report, raises nothing and
  prints the window of the loop's last state. (The clock is the nanosecond counter of
  the environment, so that a strictly increasing clock passes every finite deadline.)
\<close>

theorem receiver_loop_terminates:
  assumes "strict_mono (ticks env)"
  shows "\<exists>oc s' r.
      receiver_loop env cnt (Finite timeout) (sub_perf_counter env 0) initial_state = Some (oc, s') \<and>
      (oc = Complete \<longrightarrow> \<not> received_count (win s') < cnt) \<and>
      (oc = Timeout \<longrightarrow> received_count (win s') < cnt \<and> 0 < reads s' \<and>
         timeout < sub_perf_counter env (reads s' - 1) - sub_perf_counter env 0) \<and>
      sub_main env \<lparr>sub_count = cnt, sub_timeout = Finite timeout\<rparr> = Some (Inr (oc, r)) \<and>
      sub_received r = received_count (win s') \<and>
      sub_total_bytes r = total_bytes (win s')"
proof -
  obtain N where "\<forall>s. N \<le> reads s \<longrightarrow> timed_out env (Finite timeout) (sub_perf_counter env 0) s"
    using deadline_reached [OF assms] by blast
  from receiver_loop_ends [OF this, of cnt initial_state] obtain oc s' where
    r: "receiver_loop env cnt (Finite timeout) (sub_perf_counter env 0) initial_state = Some (oc, s')"
    and m: "received_count (win initial_state) \<le> received_count (win s')"
    and c: "oc = Complete \<longrightarrow> \<not> received_count (win s') < cnt"
    and t: "oc = Timeout \<longrightarrow> received_count (win s') < cnt \<and> 0 < reads s' \<and>
         timeout < sub_perf_counter env (reads s' - 1) - sub_perf_counter env 0"
    by auto
  have "0 \<le> received_count (win s')"
    using m by (simp add: initial_state_def empty_window_def)
  from sub_report_no_raise [OF this, of cnt] obtain res where
    res: "sub_report cnt (win s') = Inr res" "sub_received res = received_count (win s')"
      "sub_total_bytes res = total_bytes (win s')"
    by blast
  have "sub_main env \<lparr>sub_count = cnt, sub_timeout = Finite timeout\<rparr> = Some (Inr (oc, res))"
    by (simp add: sub_main_def r res)
  with r c t res show ?thesis by blast
qed


lemma strict_mono_env0: "strict_mono (ticks env0)"
  by (simp add: strict_mono_def env0_def)

theorem receiver_loop_terminates_witness:
  "strict_mono (ticks env0) \<and>
   (\<exists>oc s' r.
      receiver_loop env0 5 (Finite 30) (sub_perf_counter env0 0) initial_state = Some (oc, s') \<and>
      (oc = Complete \<longrightarrow> \<not> received_count (win s') < 5) \<and>
      (oc = Timeout \<longrightarrow> received_count (win s') < 5 \<and> 0 < reads s' \<and>
         30 < sub_perf_counter env0 (reads s' - 1) - sub_perf_counter env0 0) \<and>
      sub_main env0 \<lparr>sub_count = 5, sub_timeout = Finite 30\<rparr> = Some (Inr (oc, r)) \<and>
      sub_received r = received_count (win s') \<and>
      sub_total_bytes r = total_bytes (win s'))"
  using receiver_loop_terminates [OF strict_mono_env0, of 5 30] strict_mono_env0
  by blast

subsection \<open>Runs of the receive loop\<close>

lemma poll_step_env0_second:
  "poll_step env0 (poll_step env0 initial_state) =
     \<lparr>win = \<lparr>received_count = 3, total_bytes = 6, first_msg_time = Some 7,
              last_msg_time = Some 9\<rparr>, reads = 5, polls = 2\<rparr>"
  by (simp only: poll_step_env0_initial)
     (simp add: poll_step_def reader_take_env0 perf_counter_env0
        process_batch_def process_sample_def Let_def)

lemma not_timed_out_env0:
  "reads s \<le> 30 \<Longrightarrow> \<not> timed_out env0 (Finite 30) (sub_perf_counter env0 0) s"
  by (simp add: timed_out_def perf_counter_env0)

text \<open>
  Claim C10. The final \<^verbatim>\<open>received_count\<close> can exceed the expected count: the loop
  condition is tested between polls only, and every sample of a batch is processed.
  With two messages expected, a first batch of one data sample and a second batch of
  two, the run ends \<open>Complete\<close> with three messages received and prints no loss.
\<close>

theorem received_count_exceeds_expected:
  "sub_main env0 \<lparr>sub_count = 2, sub_timeout = Finite 30\<rparr> =
     Some (Inr (Complete,
       \<lparr>sub_received = 3, sub_total_bytes = 6, sub_elapsed = 2,
        sub_throughput_msgs = Fin 1, sub_throughput_mbps = Fin (3 / 1048576),
        sub_throughput_bits = Fin (3 / 131072), sub_loss = None\<rparr>)) \<and>
   (3::int) > 2"
proof -
  let ?sw = "sub_perf_counter env0 0"
  have "receiver_loop env0 2 (Finite 30) ?sw initial_state =
      receiver_loop env0 2 (Finite 30) ?sw (poll_step env0 initial_state)"
    by (intro receiver_loop_step not_timed_out_env0)
       (simp_all add: initial_state_def empty_window_def)
  also have "\<dots> = receiver_loop env0 2 (Finite 30) ?sw (poll_step env0 (poll_step env0 initial_state))"
    by (intro receiver_loop_step not_timed_out_env0)
       (simp_all add: poll_step_env0_initial)
  also have "\<dots> = Some (Complete, poll_step env0 (poll_step env0 initial_state))"
    by (intro receiver_loop_complete) (simp add: poll_step_env0_second)
  finally have loop: "receiver_loop env0 2 (Finite 30) ?sw initial_state =
      Some (Complete, poll_step env0 (poll_step env0 initial_state))" .
  have th: "throughput \<lparr>received_count = 3, total_bytes = 6, first_msg_time = Some 7,
              last_msg_time = Some 9\<rparr> = Inr (2, Fin 1, Fin (3 / 1048576))"
    by (simp add: throughput_def py_truediv_def)
  show ?thesis
    by (simp add: sub_main_def loop poll_step_env0_second sub_report_def th loss_rate_def)
qed










end
